theory Spec2Isabelle
  imports Complex_Main "HOL-Library.Char_ord" "HOL-Library.List_Lexorder"
begin

section \<open>The Wordle word dataset notebook (data-collection.ipynb)\<close>

text \<open>
  The notebook is modelled cell by cell. Python strings are \<open>string\<close>: a list of
  characters, each a code point below 256. Python exceptions are values of \<open>exn\<close>;
  a computation that may raise returns \<open>exn + 'a\<close> with \<open>Inl\<close> the exception.
\<close>

datatype exn = IndexError | KeyError | TypeError | ValueError | JSONDecodeError | ConnectionError

subsection \<open>Getting Wordle words (cell 3)\<close>

text \<open>
  \<^verbatim>\<open>array2List = lambda arr : re.sub(r'\"|\s', '', arr[1:-1]).split(",")\<close>

  \<open>isspace\<close> is the class \<open>\s\<close> of a Python 3 string pattern on the code points
  below 256: tab to carriage return, the separators 28 to 31, the space, 133 and 160.
  The pattern matches one character at a time, so the substitution by the empty string
  removes every double quote and every such character.
\<close>

definition isspace :: "char \<Rightarrow> bool" where
  "isspace c =
     (let n = (of_char c :: nat)
      in (9 \<le> n \<and> n \<le> 13) \<or> (28 \<le> n \<and> n \<le> 32) \<or> n = 133 \<or> n = 160)"

definition re_sub :: "string \<Rightarrow> string" where
  "re_sub s = filter (\<lambda>c. \<not> (c = CHR 0x22 \<or> isspace c)) s"

text \<open>
  \<open>str.split(sep)\<close> for a separator of one character: the pieces between the
  separators, so one more piece than there are separators, and \<open>[\"\"]\<close> for the
  empty string.
\<close>

fun str_split :: "char \<Rightarrow> string \<Rightarrow> string list" where
  "str_split sep [] = [[]]"
| "str_split sep (c # cs) =
     (if c = sep then [] # str_split sep cs
      else (case str_split sep cs of
              [] \<Rightarrow> [[c]]
            | p # ps \<Rightarrow> (c # p) # ps))"

text \<open>The slice \<open>arr[1:-1]\<close> drops the first and the last character; it never raises.\<close>

definition slice_1_m1 :: "string \<Rightarrow> string" where
  "slice_1_m1 arr = butlast (drop 1 arr)"

definition array2List :: "string \<Rightarrow> string list" where
  "array2List arr = str_split CHR '','' (re_sub (slice_1_m1 arr))"

text \<open>
  \<^verbatim>\<open>
  txt = f.read().split("\n")
  answers = array2List(txt[1117][13:])
  wordlist = array2List(txt[1118][13:])
  \<close>
  Indexing a list out of range raises IndexError; the slice \<open>[13:]\<close> never raises.
  The result is the pair (answers, wordlist).
\<close>

definition get_words :: "string \<Rightarrow> exn + (string list \<times> string list)" where
  "get_words f =
     (let txt = str_split CHR 0x0A f
      in if length txt \<le> 1117 then Inl IndexError
         else let answers = array2List (drop 13 (txt ! 1117))
              in if length txt \<le> 1118 then Inl IndexError
                 else Inr (answers, array2List (drop 13 (txt ! 1118))))"

subsection \<open>Fetching occurrence data (cell 7)\<close>

text \<open>
  A response of \<open>requests.get\<close>: its status code and what \<open>res.json()\<close> gives, the
  parsed body, or \<open>None\<close> when the body is not JSON and \<open>res.json()\<close> raises.
  JSON numbers are reals: the rounding of float64 is not modelled. An object is the
  list of its members in the order of the text.
\<close>

datatype json =
    JNull
  | JBool bool
  | JNum real
  | JStr string
  | JArr "json list"
  | JObj "(string \<times> json) list"

record response =
  status_code :: nat
  content :: "json option"

text \<open>
  One call of \<open>requests.get(url, params)\<close> raises or returns a response. The calls for
  one url and one set of parameters are a sequence: \<open>get n\<close> is the outcome of call
  number \<open>n\<close>. The state of a run counts the calls made and logs every \<open>sleep\<close>.
\<close>

type_synonym outcome = "exn + response"

record io =
  requests :: nat
  sleeps :: "nat list"

definition tooManyReqsCode :: nat where
  "tooManyReqsCode = 429"

text \<open>
  \<^verbatim>\<open>
  def fetch(url, params, wait=1):
      res = requests.get(url, params)
      if res.status_code == tooManyReqsCode:
          while(res.status_code == tooManyReqsCode):
              sleep(wait)
              res = requests.get(url, params)
      return res
  \<close>
  The loop need not end: \<open>fetch_while\<close> is \<open>None\<close> when it runs forever.
\<close>

partial_function (option) fetch_while ::
  "(nat \<Rightarrow> outcome) \<Rightarrow> nat \<Rightarrow> response \<Rightarrow> io \<Rightarrow> ((exn + response) \<times> io) option" where
  "fetch_while get wait res s =
     (if status_code res = tooManyReqsCode then
        (let s1 = s\<lparr>sleeps := sleeps s @ [wait]\<rparr>;
             s2 = s1\<lparr>requests := Suc (requests s1)\<rparr>
         in case get (requests s1) of
              Inl e \<Rightarrow> Some (Inl e, s2)
            | Inr res' \<Rightarrow> fetch_while get wait res' s2)
      else Some (Inr res, s))"

definition fetch :: "(nat \<Rightarrow> outcome) \<Rightarrow> nat \<Rightarrow> io \<Rightarrow> ((exn + response) \<times> io) option" where
  "fetch get wait s =
     (let s1 = s\<lparr>requests := Suc (requests s)\<rparr>
      in case get (requests s) of
           Inl e \<Rightarrow> Some (Inl e, s1)
         | Inr res \<Rightarrow>
             if status_code res = tooManyReqsCode then fetch_while get wait res s1
             else Some (Inr res, s1))"

text \<open>
  \<open>np.mean\<close> of a parsed JSON value. \<open>np.asarray\<close> makes a numeric array of a number, a
  boolean, or a nested list of them in which the lists of every level have one length;
  \<open>shape\<close> is its shape. The mean is taken over all its elements (booleans count as 1
  and 0), and is \<open>nan\<close>, with a warning and no exception, when it has none. Every other
  value raises.
\<close>

datatype float64 = NaN | Fl real

fun shape :: "json \<Rightarrow> nat list option" where
  "shape (JNum x) = Some []"
| "shape (JBool b) = Some []"
| "shape (JArr []) = Some [0]"
| "shape (JArr (v # vs)) =
     (case shape v of
        None \<Rightarrow> None
      | Some d \<Rightarrow> if list_all (\<lambda>u. shape u = Some d) vs then Some (Suc (length vs) # d) else None)"
| "shape JNull = None"
| "shape (JStr s) = None"
| "shape (JObj kvs) = None"

fun leaves :: "json \<Rightarrow> real list" where
  "leaves (JNum x) = [x]"
| "leaves (JBool b) = [if b then 1 else 0]"
| "leaves (JArr vs) = concat (map leaves vs)"
| "leaves JNull = []"
| "leaves (JStr s) = []"
| "leaves (JObj kvs) = []"

definition np_mean :: "json \<Rightarrow> exn + float64" where
  "np_mean v =
     (case shape v of
        None \<Rightarrow> Inl TypeError
      | Some d \<Rightarrow>
          (let xs = leaves v
           in if xs = [] then Inr NaN else Inr (Fl (sum_list xs / real (length xs)))))"

text \<open>
  \<open>res.json()\<close>, \<open>v[0]\<close> and \<open>v['timeseries']\<close>, with the exceptions Python raises.
  A JSON object has string keys only, so \<open>v[0]\<close> on it is a KeyError; when a key is
  repeated in the text the parser keeps the last member.
\<close>

definition res_json :: "response \<Rightarrow> exn + json" where
  "res_json res = (case content res of None \<Rightarrow> Inl JSONDecodeError | Some v \<Rightarrow> Inr v)"

fun item0 :: "json \<Rightarrow> exn + json" where
  "item0 (JArr []) = Inl IndexError"
| "item0 (JArr (v # vs)) = Inr v"
| "item0 (JStr []) = Inl IndexError"
| "item0 (JStr (c # cs)) = Inr (JStr [c])"
| "item0 (JObj kvs) = Inl KeyError"
| "item0 JNull = Inl TypeError"
| "item0 (JBool b) = Inl TypeError"
| "item0 (JNum x) = Inl TypeError"

fun item_timeseries :: "json \<Rightarrow> exn + json" where
  "item_timeseries (JObj kvs) =
     (case map_of (rev kvs) ''timeseries'' of None \<Rightarrow> Inl KeyError | Some v \<Rightarrow> Inr v)"
| "item_timeseries JNull = Inl TypeError"
| "item_timeseries (JBool b) = Inl TypeError"
| "item_timeseries (JNum x) = Inl TypeError"
| "item_timeseries (JStr s) = Inl TypeError"
| "item_timeseries (JArr vs) = Inl TypeError"

definition raise_bind :: "exn + 'a \<Rightarrow> ('a \<Rightarrow> exn + 'b) \<Rightarrow> exn + 'b" where
  "raise_bind m f = (case m of Inl e \<Rightarrow> Inl e | Inr x \<Rightarrow> f x)"

text \<open>
  \<^verbatim>\<open>
  def getNgramUsage(ngram):
      url = 'https://books.google.com/ngrams/json'
      args = {'content': ngram, 'year_start': 1970, 'year_end': 2019,
              'corpus': 26, 'smoothing': 0}
      emptyValue = ""
      res = fetch(url, args)
      try:
          occurrence = np.mean(res.json()[0]['timeseries'])
          return occurrence
      except:
          return emptyValue
  \<close>
  \<open>timeseries_of\<close> is \<open>res.json()[0]['timeseries']\<close>, \<open>try_occurrence\<close> the body of
  the \<open>try\<close>, \<open>usage_of\<close> the whole \<open>try\<close> statement: the
  bare \<open>except\<close> turns every exception of the body into the empty string. The call of
  \<open>fetch\<close> stands before the \<open>try\<close>: what it raises leaves \<open>getNgramUsage\<close>.
\<close>

datatype usage = EmptyValue | Occurrence float64

record args =
  arg_content :: string
  year_start :: nat
  year_end :: nat
  corpus :: nat
  smoothing :: nat

definition timeseries_of :: "response \<Rightarrow> exn + json" where
  "timeseries_of res = raise_bind (raise_bind (res_json res) item0) item_timeseries"

definition try_occurrence :: "response \<Rightarrow> exn + float64" where
  "try_occurrence res = raise_bind (timeseries_of res) np_mean"

definition usage_of :: "response \<Rightarrow> usage" where
  "usage_of res = (case try_occurrence res of Inl e \<Rightarrow> EmptyValue | Inr x \<Rightarrow> Occurrence x)"

definition ngram_args :: "string \<Rightarrow> args" where
  "ngram_args ngram =
     \<lparr>arg_content = ngram, year_start = 1970, year_end = 2019, corpus = 26, smoothing = 0\<rparr>"

definition getNgramUsage ::
  "(args \<Rightarrow> nat \<Rightarrow> outcome) \<Rightarrow> string \<Rightarrow> io \<Rightarrow> ((exn + usage) \<times> io) option" where
  "getNgramUsage net ngram s =
     (let args = ngram_args ngram
      in case fetch (net args) 1 s of
           None \<Rightarrow> None
         | Some (Inl e, s') \<Rightarrow> Some (Inl e, s')
         | Some (Inr res, s') \<Rightarrow> Some (Inr (usage_of res), s'))"

text \<open>An outcome that makes \<open>fetch\<close> retry: a response with the status 429.\<close>

definition rate_limited :: "outcome \<Rightarrow> bool" where
  "rate_limited out =
     (case out of Inl e \<Rightarrow> False | Inr res \<Rightarrow> status_code res = tooManyReqsCode)"

subsection \<open>Reading a table with pandas\<close>

text \<open>
  \<open>pd.read_csv\<close> reads a field that is one of its default NA strings as \<open>NaN\<close>,
  also in a column whose dtype is given as \<open>str\<close>. In a column that has no dtype it
  then looks at the other fields: when each of them reads as a number the column
  is a column of numbers, when each of them is \<open>true\<close> or \<open>false\<close> in any case it is a
  column of booleans, and otherwise the fields stay strings. A number is an optional
  sign, digits with an optional decimal point (one digit at least), and an optional
  exponent with its own sign and digits, between optional blanks; or \<open>inf\<close> or
  \<open>infinity\<close> in any case with an optional sign. The range of float64 is not
  modelled, and the file is taken to be read in one piece.
\<close>

definition na_values :: "string list" where
  "na_values =
     [[], ''#N/A'', ''#N/A N/A'', ''#NA'', ''-1.#IND'', ''-1.#QNAN'', ''-NaN'', ''-nan'',
      ''1.#IND'', ''1.#QNAN'', ''<NA>'', ''N/A'', ''NA'', ''NULL'', ''NaN'', ''None'',
      ''n/a'', ''nan'', ''null'']"

definition is_na :: "string \<Rightarrow> bool" where
  "is_na w = (w \<in> set na_values)"

definition ascii_lower :: "char \<Rightarrow> char" where
  "ascii_lower c =
     (let n = (of_char c :: nat) in if 65 \<le> n \<and> n \<le> 90 then char_of (n + 32) else c)"

definition isdigit :: "char \<Rightarrow> bool" where
  "isdigit c = (let n = (of_char c :: nat) in 48 \<le> n \<and> n \<le> 57)"

definition isblank :: "char \<Rightarrow> bool" where
  "isblank c = (let n = (of_char c :: nat) in (9 \<le> n \<and> n \<le> 13) \<or> n = 32)"

fun skip_sign :: "string \<Rightarrow> string" where
  "skip_sign [] = []"
| "skip_sign (c # cs) = (if c = CHR ''+'' \<or> c = CHR ''-'' then cs else c # cs)"

definition float_syntax :: "string \<Rightarrow> bool" where
  "float_syntax w =
     (let s = skip_sign w;
          int_digits = takeWhile isdigit s;
          r = dropWhile isdigit s;
          point = (case r of [] \<Rightarrow> False | c # t \<Rightarrow> c = CHR ''.'');
          frac_digits = (if point then takeWhile isdigit (tl r) else []);
          r' = (if point then dropWhile isdigit (tl r) else r)
      in (int_digits \<noteq> [] \<or> frac_digits \<noteq> []) \<and>
         (case r' of
            [] \<Rightarrow> True
          | e # t \<Rightarrow>
              (e = CHR ''e'' \<or> e = CHR ''E'') \<and>
              skip_sign t \<noteq> [] \<and> list_all isdigit (skip_sign t)))"

definition inf_token :: "string \<Rightarrow> bool" where
  "inf_token w =
     (map ascii_lower w \<in>
        set [''inf'', ''+inf'', ''-inf'', ''infinity'', ''+infinity'', ''-infinity''])"

definition numeric_like :: "string \<Rightarrow> bool" where
  "numeric_like w =
     (float_syntax (rev (dropWhile isblank (rev (dropWhile isblank w)))) \<or> inf_token w)"

definition bool_like :: "string \<Rightarrow> bool" where
  "bool_like w = (map ascii_lower w \<in> set [''true'', ''false''])"

text \<open>
  A value of a column that was read with no dtype. A number is kept by its text: the
  notebook never uses its value.
\<close>

datatype cell = NaNCell | StrCell string | NumCell string | BoolCell bool

definition read_word_column :: "string list \<Rightarrow> cell list" where
  "read_word_column ws =
     (let vals = filter (\<lambda>w. \<not> is_na w) ws
      in if list_all numeric_like vals
         then map (\<lambda>w. if is_na w then NaNCell else NumCell w) ws
         else if list_all bool_like vals
         then map (\<lambda>w. if is_na w then NaNCell
                        else BoolCell (map ascii_lower w = ''true'')) ws
         else map (\<lambda>w. if is_na w then NaNCell else StrCell w) ws)"

text \<open>
  The words the record model of the two files is meant for. \<open>array2List\<close> delivers
  words with no double quote and no white space, so a row of the cache file is the
  word, a tab, the value and a newline. A word of the second kind is read back as
  itself in a column of dtype \<open>str\<close>, a word of the third kind in every column.
\<close>

definition no_quote_space :: "string \<Rightarrow> bool" where
  "no_quote_space w = list_all (\<lambda>c. \<not> (c = CHR 0x22 \<or> isspace c)) w"

definition csv_word :: "string \<Rightarrow> bool" where
  "csv_word w = (no_quote_space w \<and> \<not> is_na w)"

definition plain_word :: "string \<Rightarrow> bool" where
  "plain_word w = (csv_word w \<and> \<not> numeric_like w \<and> \<not> bool_like w)"

subsection \<open>Querying Ngram Viewer (cell 15)\<close>

text \<open>
  The cache file \<open>wordle.tsv\<close> is modelled by its records: the rows after the header,
  each the word and the value of \<open>getNgramUsage\<close> that was formatted into it. The file
  system holds \<open>None\<close> when the file does not exist.
  \<^verbatim>\<open>
  if not Path(fn).is_file():
      with open(fn, 'w') as f:
          f.write('word\toccurrence\n')
  queriedWords = list(pd.read_csv(fn, delimiter='\t').word)
  words = wordlist + answers
  isQueried = lambda word : word not in queriedWords
  wordsToQuery = filter(isQueried, words)
  with open(fn, 'a') as f:
      for word in wordsToQuery:
          occurrence = getNgramUsage(word)
          row ='{}\t{}\n'.format(word, occurrence)
          f.write(row)
  \<close>
  The word column is read with no dtype, so \<open>queriedWords\<close> is a list of cells, and a
  word is in it when one of them is this string. In this cell \<open>getNgramUsage\<close> is a
  function \<open>lookup\<close> of the word. A run keeps the file and the log of the words
  \<open>lookup\<close> was called on. A run that is interrupted after \<open>k\<close> rows were appended has
  \<open>Some k\<close> as budget, a run that is left to finish has \<open>None\<close>.
\<close>

type_synonym tsv_file = "(string \<times> usage) list"

record run =
  tsv :: tsv_file
  calls :: "string list"

definition create_if_absent :: "tsv_file option \<Rightarrow> tsv_file" where
  "create_if_absent fs = (case fs of None \<Rightarrow> [] | Some rows \<Rightarrow> rows)"

definition isQueried :: "cell list \<Rightarrow> string \<Rightarrow> bool" where
  "isQueried queriedWords word = (StrCell word \<notin> set queriedWords)"

definition wordsToQuery :: "string list \<Rightarrow> string list \<Rightarrow> tsv_file \<Rightarrow> string list" where
  "wordsToQuery wordlist answers rows =
     (let queriedWords = read_word_column (map fst rows);
          words = wordlist @ answers
      in filter (isQueried queriedWords) words)"

fun append_rows :: "(string \<Rightarrow> usage) \<Rightarrow> string list \<Rightarrow> run \<Rightarrow> run" where
  "append_rows lookup [] r = r"
| "append_rows lookup (word # ws) r =
     append_rows lookup ws
       (r\<lparr>calls := calls r @ [word], tsv := tsv r @ [(word, lookup word)]\<rparr>)"

definition within_budget :: "nat option \<Rightarrow> string list \<Rightarrow> string list" where
  "within_budget budget ws = (case budget of None \<Rightarrow> ws | Some k \<Rightarrow> take k ws)"

definition cache_step ::
  "nat option \<Rightarrow> (string \<Rightarrow> usage) \<Rightarrow> string list \<Rightarrow> string list \<Rightarrow> tsv_file option \<Rightarrow> run" where
  "cache_step budget lookup wordlist answers fs =
     (let rows = create_if_absent fs
      in append_rows lookup (within_budget budget (wordsToQuery wordlist answers rows))
           \<lparr>tsv = rows, calls = []\<rparr>)"

text \<open>The file after a sequence of interrupted runs, one budget for each run.\<close>

fun partial_runs ::
  "nat list \<Rightarrow> (string \<Rightarrow> usage) \<Rightarrow> string list \<Rightarrow> string list \<Rightarrow> tsv_file option \<Rightarrow> tsv_file option" where
  "partial_runs [] lookup wordlist answers fs = fs"
| "partial_runs (k # ks) lookup wordlist answers fs =
     partial_runs ks lookup wordlist answers
       (Some (tsv (cache_step (Some k) lookup wordlist answers fs)))"

subsection \<open>Assembling the dataset (cells 16 to 28)\<close>

text \<open>
  \<^verbatim>\<open>
  data = pd.read_csv(fn, delimiter="\t", dtype={'word': str, 'occurrence': np.float64})
  data['occurrence'] = data['occurrence'].replace(np.nan, 0)
  data['day'] = data['word'].apply(lambda w: answers.index(w) if w in answers else None)
  data.sort_values('word').to_csv('wordle.csv', index=False)
  \<close>
  A word of the frame is \<open>None\<close> when the field was read as \<open>NaN\<close>. In the occurrence
  column an empty field and the text \<open>nan\<close> are both read as \<open>NaN\<close>. \<open>NaN\<close> is not in
  \<open>answers\<close>, a list of strings, so its day is null. \<open>answers.index(w)\<close> is the first
  position of \<open>w\<close> and raises ValueError when there is none. \<open>sort_values\<close> compares
  the words as Python compares strings, code point by code point, and puts the rows
  with a \<open>NaN\<close> word last, in the order they had. \<open>to_csv\<close> writes \<open>NaN\<close> as the empty
  field. The output file is modelled by its rows; how pandas prints a number is not
  modelled.
\<close>

fun read_occurrence :: "usage \<Rightarrow> float64" where
  "read_occurrence EmptyValue = NaN"
| "read_occurrence (Occurrence x) = x"

definition read_word :: "string \<Rightarrow> string option" where
  "read_word w = (if is_na w then None else Some w)"

definition read_csv :: "tsv_file \<Rightarrow> (string option \<times> float64) list" where
  "read_csv rows = map (\<lambda>(w, u). (read_word w, read_occurrence u)) rows"

fun replace_nan :: "float64 \<Rightarrow> float64" where
  "replace_nan NaN = Fl 0"
| "replace_nan (Fl x) = Fl x"

fun list_index :: "'a list \<Rightarrow> 'a \<Rightarrow> exn + nat" where
  "list_index [] w = Inl ValueError"
| "list_index (x # xs) w =
     (if x = w then Inr 0
      else (case list_index xs w of Inl e \<Rightarrow> Inl e | Inr i \<Rightarrow> Inr (Suc i)))"

definition day_of :: "string list \<Rightarrow> string \<Rightarrow> exn + nat option" where
  "day_of answers w =
     (if w \<in> set answers
      then (case list_index answers w of Inl e \<Rightarrow> Inl e | Inr i \<Rightarrow> Inr (Some i))
      else Inr None)"

definition day_of_cell :: "string list \<Rightarrow> string option \<Rightarrow> exn + nat option" where
  "day_of_cell answers c = (case c of None \<Rightarrow> Inr None | Some w \<Rightarrow> day_of answers w)"

record frame_row =
  word_cell :: "string option"
  occurrence_cell :: float64
  day_cell :: "nat option"

fun apply_day :: "string list \<Rightarrow> (string option \<times> float64) list \<Rightarrow> exn + frame_row list" where
  "apply_day answers [] = Inr []"
| "apply_day answers ((c, x) # rest) =
     (case day_of_cell answers c of
        Inl e \<Rightarrow> Inl e
      | Inr d \<Rightarrow>
          (case apply_day answers rest of
             Inl e \<Rightarrow> Inl e
           | Inr out \<Rightarrow> Inr (\<lparr>word_cell = c, occurrence_cell = x, day_cell = d\<rparr> # out)))"

definition word_key :: "frame_row \<Rightarrow> string" where
  "word_key r = (case word_cell r of None \<Rightarrow> [] | Some w \<Rightarrow> w)"

definition sort_values_word :: "frame_row list \<Rightarrow> frame_row list" where
  "sort_values_word rows =
     sort_key word_key (filter (\<lambda>r. word_cell r \<noteq> None) rows)
       @ filter (\<lambda>r. word_cell r = None) rows"

record row =
  word :: string
  occurrence :: float64
  day :: "nat option"

definition to_csv :: "frame_row list \<Rightarrow> row list" where
  "to_csv rows =
     map (\<lambda>r. \<lparr>word = word_key r, occurrence = occurrence_cell r, day = day_cell r\<rparr>) rows"

definition assemble :: "string list \<Rightarrow> tsv_file \<Rightarrow> exn + row list" where
  "assemble answers rows =
     (let data = map (\<lambda>(c, x). (c, replace_nan x)) (read_csv rows)
      in case apply_day answers data of
           Inl e \<Rightarrow> Inl e
         | Inr out \<Rightarrow> Inr (to_csv (sort_values_word out)))"

text \<open>The whole notebook on a fresh directory: one run left to finish, then the assembly.\<close>

definition final_output ::
  "(string \<Rightarrow> usage) \<Rightarrow> string list \<Rightarrow> string list \<Rightarrow> exn + row list" where
  "final_output lookup wordlist answers =
     assemble answers (tsv (cache_step None lookup wordlist answers None))"

section \<open>Properties\<close>

subsection \<open>The array extractor\<close>

lemma str_split_not_Nil: "str_split sep s \<noteq> []"
  by (induction s) (auto split: list.splits)

lemma length_str_split: "length (str_split sep s) = Suc (count_list s sep)"
proof (induction s)
  case Nil
  show ?case by simp
next
  case (Cons c cs)
  then show ?case
    using str_split_not_Nil [of sep cs] by (auto split: list.splits)
qed

lemma str_split_replicate: "str_split sep (replicate n sep) = replicate (Suc n) []"
  by (induction n) simp_all

lemma str_split_replicate_append:
  "str_split sep (replicate n sep @ s) = replicate n [] @ str_split sep s"
  by (induction n) simp_all

text \<open>
  C9, as the claim states it, fails: a text of 1119 lines whose lines 1117 and 1118
  hold no array literal is not refused. The words that come back are what is left of
  the two lines after the slices and the substitution.
\<close>

theorem get_words_malformed_counterexample:
  "get_words (replicate 1117 CHR 0x0A @ ''this line is not an array literal''
                @ [CHR 0x0A] @ ''neither is this one'')
   = Inr ([''otanarraylitera''], [''son''])"
  by (simp add: get_words_def Let_def str_split_replicate_append nth_append
      array2List_def re_sub_def slice_1_m1_def isspace_def)

text \<open>
  C9 (amended): the extraction fails, with an IndexError, exactly when the text has
  fewer than 1119 lines. On a text of at least 1119 lines it returns two word
  sequences, whatever lines 1117 and 1118 hold: the answers from line 1117 and the word
  list from line 1118, each cut at column 13 and parsed by \<open>array2List\<close>.
\<close>

theorem get_words_fails_iff_short:
  "(length (str_split CHR 0x0A f) < 1119 \<longrightarrow> get_words f = Inl IndexError) \<and>
   (1119 \<le> length (str_split CHR 0x0A f) \<longrightarrow>
      get_words f = Inr (array2List (drop 13 (str_split CHR 0x0A f ! 1117)),
                         array2List (drop 13 (str_split CHR 0x0A f ! 1118))))"
  by (auto simp: get_words_def Let_def)

theorem get_words_fails_iff_short_witness:
  "get_words [] = Inl IndexError \<and>
   get_words (replicate 1118 CHR 0x0A) = Inr ([[]], [[]])"
  using get_words_fails_iff_short [of "[]"]
    get_words_fails_iff_short [of "replicate 1118 CHR 0x0A"]
  by (simp add: str_split_replicate array2List_def re_sub_def slice_1_m1_def)

subsection \<open>The frequency client\<close>

lemma fetch_while_stop:
  "status_code res \<noteq> tooManyReqsCode \<Longrightarrow> fetch_while get wait res s = Some (Inr res, s)"
  by (subst fetch_while.simps) simp

lemma fetch_while_returns:
  assumes "status_code res = tooManyReqsCode"
    and "\<forall>i<k. rate_limited (get (requests s + i))"
    and "\<not> rate_limited (get (requests s + k))"
  shows "fetch_while get wait res s =
           Some (get (requests s + k),
                 \<lparr>requests = Suc (requests s + k), sleeps = sleeps s @ replicate (Suc k) wait\<rparr>)"
  using assms
proof (induction k arbitrary: res s)
  case 0
  show ?case
  proof (cases "get (requests s)")
    case (Inl e)
    with 0 show ?thesis
      by (subst fetch_while.simps) (simp add: Let_def)
  next
    case (Inr r)
    with 0 have "status_code r \<noteq> tooManyReqsCode"
      by (simp add: rate_limited_def)
    with 0 Inr show ?thesis
      by (subst fetch_while.simps) (simp add: Let_def fetch_while_stop)
  qed
next
  case (Suc k)
  from Suc.prems(2) have "rate_limited (get (requests s))"
    by (metis add.right_neutral zero_less_Suc)
  then obtain r where r: "get (requests s) = Inr r" "status_code r = tooManyReqsCode"
    by (auto simp: rate_limited_def split: sum.splits)
  let ?s2 = "s\<lparr>sleeps := sleeps s @ [wait], requests := Suc (requests s)\<rparr>"
  have a: "\<forall>i<k. rate_limited (get (requests ?s2 + i))"
    using Suc.prems(2) by (auto dest: spec [of _ "Suc _"])
  have b: "\<not> rate_limited (get (requests ?s2 + k))"
    using Suc.prems(3) by simp
  have "fetch_while get wait res s = fetch_while get wait r ?s2"
    using Suc.prems(1) r by (subst fetch_while.simps) (simp add: Let_def)
  also have "\<dots> = Some (get (requests ?s2 + k),
                 \<lparr>requests = Suc (requests ?s2 + k), sleeps = sleeps ?s2 @ replicate (Suc k) wait\<rparr>)"
    by (rule Suc.IH [OF r(2) a b])
  finally show ?case by (simp add: replicate_app_Cons_same)
qed

lemma fetch_while_Some_stops:
  assumes "fetch_while get wait res s = Some y"
  shows "status_code res \<noteq> tooManyReqsCode \<or> (\<exists>i. \<not> rate_limited (get (requests s + i)))"
proof (rule fetch_while.raw_induct [where P = "\<lambda>get wait res s y. status_code res \<noteq> tooManyReqsCode \<or> (\<exists>i. \<not> rate_limited (get (requests s + i)))", OF _ assms], goal_cases)
  case (1 fw get wait res s y)
  show ?case
  proof (cases "status_code res = tooManyReqsCode")
    case False
    then show ?thesis by simp
  next
    case True
    show ?thesis
    proof (cases "get (requests s)")
      case (Inl e)
      then have "\<not> rate_limited (get (requests s + 0))" by (simp add: rate_limited_def)
      then show ?thesis by blast
    next
      case (Inr r)
      show ?thesis
      proof (cases "status_code r = tooManyReqsCode")
        case False
        with Inr have "\<not> rate_limited (get (requests s + 0))" by (simp add: rate_limited_def)
        then show ?thesis by blast
      next
        case T2: True
        from 1(2) True Inr
        have "fw get wait r (s\<lparr>sleeps := sleeps s @ [wait], requests := Suc (requests s)\<rparr>) = Some y"
          by (simp add: Let_def)
        from 1(1) [OF this] T2 obtain i where "\<not> rate_limited (get (Suc (requests s) + i))"
          by auto
        then have "\<not> rate_limited (get (requests s + Suc i))" by simp
        then show ?thesis by blast
      qed
    qed
  qed
qed


lemma fetch_returns:
  assumes "\<forall>i<k. rate_limited (get (requests s + i))"
    and "\<not> rate_limited (get (requests s + k))"
  shows "fetch get wait s =
           Some (get (requests s + k),
                 \<lparr>requests = Suc (requests s + k), sleeps = sleeps s @ replicate k wait\<rparr>)"
proof (cases k)
  case 0
  with assms(2) show ?thesis
    by (cases s) (auto simp: fetch_def Let_def rate_limited_def split: sum.splits)
next
  case (Suc j)
  with assms(1) have "rate_limited (get (requests s))"
    by (metis add.right_neutral zero_less_Suc)
  then obtain r where r: "get (requests s) = Inr r" "status_code r = tooManyReqsCode"
    by (auto simp: rate_limited_def split: sum.splits)
  let ?s1 = "s\<lparr>requests := Suc (requests s)\<rparr>"
  have a: "\<forall>i<j. rate_limited (get (requests ?s1 + i))"
    using assms(1) Suc by (auto dest: spec [of _ "Suc _"])
  have b: "\<not> rate_limited (get (requests ?s1 + j))"
    using assms(2) Suc by simp
  have "fetch get wait s = fetch_while get wait r ?s1"
    using r by (simp add: fetch_def Let_def)
  also note fetch_while_returns [OF r(2) a b]
  finally show ?thesis using Suc by simp
qed

lemma fetch_diverges:
  assumes "\<forall>i. rate_limited (get (requests s + i))"
  shows "fetch get wait s = None"
proof -
  from assms have "rate_limited (get (requests s + 0))" by blast
  then obtain r where r: "get (requests s) = Inr r" "status_code r = tooManyReqsCode"
    by (auto simp: rate_limited_def split: sum.splits)
  let ?s1 = "s\<lparr>requests := Suc (requests s)\<rparr>"
  have eq: "fetch get wait s = fetch_while get wait r ?s1"
    using r by (simp add: fetch_def Let_def)
  have "fetch_while get wait r ?s1 = None"
  proof (cases "fetch_while get wait r ?s1")
    case None
    then show ?thesis .
  next
    case (Some y)
    from fetch_while_Some_stops [OF this] r(2)
    obtain i where "\<not> rate_limited (get (requests ?s1 + i))" by blast
    then have "\<not> rate_limited (get (requests s + Suc i))" by simp
    with assms show ?thesis by blast
  qed
  with eq show ?thesis by simp
qed

text \<open>
  C8: for every sequence \<open>rs\<close> of responses to the repeated request, if every
  response has the status 429 then \<open>fetch\<close> never returns; if response number \<open>k\<close> is
  the first whose status is not 429 then \<open>fetch\<close> returns exactly that response,
  after \<open>k + 1\<close> requests and \<open>k\<close> sleeps of the fixed interval \<open>wait\<close>, one before
  each retry.
\<close>

theorem fetch_retries_until_not_429:
  "((\<forall>n. status_code (rs n) = 429) \<longrightarrow>
      fetch (\<lambda>n. Inr (rs n)) wait \<lparr>requests = 0, sleeps = []\<rparr> = None) \<and>
   ((\<forall>i<k. status_code (rs i) = 429) \<and> status_code (rs k) \<noteq> 429 \<longrightarrow>
      fetch (\<lambda>n. Inr (rs n)) wait \<lparr>requests = 0, sleeps = []\<rparr>
        = Some (Inr (rs k), \<lparr>requests = Suc k, sleeps = replicate k wait\<rparr>))"
proof (intro conjI impI)
  assume "\<forall>n. status_code (rs n) = 429"
  then have "\<forall>i. rate_limited ((\<lambda>n. Inr (rs n)) (requests \<lparr>requests = 0, sleeps = []\<rparr> + i))"
    by (simp add: rate_limited_def tooManyReqsCode_def)
  then show "fetch (\<lambda>n. Inr (rs n)) wait \<lparr>requests = 0, sleeps = []\<rparr> = None"
    by (rule fetch_diverges)
next
  assume h: "(\<forall>i<k. status_code (rs i) = 429) \<and> status_code (rs k) \<noteq> 429"
  let ?s = "\<lparr>requests = 0, sleeps = []\<rparr>"
  have a: "\<forall>i<k. rate_limited ((\<lambda>n. Inr (rs n)) (requests ?s + i))"
    using h by (simp add: rate_limited_def tooManyReqsCode_def)
  have b: "\<not> rate_limited ((\<lambda>n. Inr (rs n)) (requests ?s + k))"
    using h by (simp add: rate_limited_def tooManyReqsCode_def)
  from fetch_returns [OF a b, of wait]
  show "fetch (\<lambda>n. Inr (rs n)) wait ?s
        = Some (Inr (rs k), \<lparr>requests = Suc k, sleeps = replicate k wait\<rparr>)"
    by simp
qed

theorem fetch_retries_until_not_429_witness:
  "fetch (\<lambda>n. Inr \<lparr>status_code = 429, content = None\<rparr>) 1 \<lparr>requests = 0, sleeps = []\<rparr> = None \<and>
   fetch (\<lambda>n. Inr (if n < 2 then \<lparr>status_code = 429, content = None\<rparr>
                     else \<lparr>status_code = 200, content = Some (JArr [])\<rparr>)) 1
         \<lparr>requests = 0, sleeps = []\<rparr>
     = Some (Inr \<lparr>status_code = 200, content = Some (JArr [])\<rparr>,
             \<lparr>requests = 3, sleeps = [1, 1]\<rparr>)"
  using fetch_retries_until_not_429
      [where rs = "\<lambda>n. \<lparr>status_code = 429, content = None\<rparr>" and k = 0 and wait = 1]
    fetch_retries_until_not_429
      [where rs = "\<lambda>n. if n < 2 then \<lparr>status_code = 429, content = None\<rparr>
                else \<lparr>status_code = 200, content = Some (JArr [])\<rparr>" and k = 2 and wait = 1]
  by (simp add: numeral_2_eq_2)

lemma getNgramUsage_fetch:
  assumes "\<forall>i<k. rate_limited (net (ngram_args w) i)"
    and "\<not> rate_limited (net (ngram_args w) k)"
  shows "getNgramUsage net w \<lparr>requests = 0, sleeps = []\<rparr> =
           Some (map_sum id usage_of (net (ngram_args w) k),
                 \<lparr>requests = Suc k, sleeps = replicate k 1\<rparr>)"
proof -
  let ?s = "\<lparr>requests = 0, sleeps = []\<rparr>"
  have a: "\<forall>i<k. rate_limited (net (ngram_args w) (requests ?s + i))"
    using assms(1) by simp
  have b: "\<not> rate_limited (net (ngram_args w) (requests ?s + k))"
    using assms(2) by simp
  from fetch_returns [OF a b, of 1] show ?thesis
    by (cases "net (ngram_args w) k") (simp_all add: getNgramUsage_def)
qed

lemma usage_of_not_json: "content res = None \<Longrightarrow> usage_of res = EmptyValue"
  by (simp add: usage_of_def try_occurrence_def timeseries_of_def res_json_def raise_bind_def)

lemma usage_of_empty_list: "content res = Some (JArr []) \<Longrightarrow> usage_of res = EmptyValue"
  by (simp add: usage_of_def try_occurrence_def timeseries_of_def res_json_def raise_bind_def)

lemma usage_of_raise: "try_occurrence res = Inl e \<Longrightarrow> usage_of res = EmptyValue"
  by (simp add: usage_of_def)

text \<open>
  C6, as the claim states it, fails for a network error: \<open>requests.get\<close> raises inside
  \<open>fetch\<close>, which is called before the \<open>try\<close>, so the exception leaves
  \<open>getNgramUsage\<close>.
\<close>

theorem getNgramUsage_network_error_counterexample:
  "getNgramUsage (\<lambda>a n. Inl ConnectionError) ''cigar'' \<lparr>requests = 0, sleeps = []\<rparr>
     = Some (Inl ConnectionError, \<lparr>requests = 1, sleeps = []\<rparr>)"
  by (simp add: getNgramUsage_def fetch_def)

text \<open>
  C6 (amended): when the outcomes before number \<open>k\<close> are all rate-limit responses,
  then (1) if outcome \<open>k\<close> is a response with another status, \<open>getNgramUsage\<close> returns
  and does not raise, and what it returns is the empty value when the body is not
  JSON, when the result list is empty, and when any other step of the \<open>try\<close> raises;
  (2) if outcome \<open>k\<close> is an exception raised by the request, \<open>getNgramUsage\<close> raises
  it.
\<close>

theorem getNgramUsage_catches_after_response:
  assumes "\<forall>i<k. rate_limited (net (ngram_args w) i)"
  shows "(\<forall>res. net (ngram_args w) k = Inr res \<and> status_code res \<noteq> 429 \<longrightarrow>
            getNgramUsage net w \<lparr>requests = 0, sleeps = []\<rparr>
              = Some (Inr (usage_of res), \<lparr>requests = Suc k, sleeps = replicate k 1\<rparr>) \<and>
            (content res = None \<or> content res = Some (JArr []) \<or> (\<exists>e. try_occurrence res = Inl e)
               \<longrightarrow> usage_of res = EmptyValue)) \<and>
         (\<forall>e. net (ngram_args w) k = Inl e \<longrightarrow>
            getNgramUsage net w \<lparr>requests = 0, sleeps = []\<rparr>
              = Some (Inl e, \<lparr>requests = Suc k, sleeps = replicate k 1\<rparr>))"
proof (intro conjI allI impI)
  fix res
  assume h: "net (ngram_args w) k = Inr res \<and> status_code res \<noteq> 429"
  then have "\<not> rate_limited (net (ngram_args w) k)"
    by (simp add: rate_limited_def tooManyReqsCode_def)
  from getNgramUsage_fetch [of k net w, OF assms this] h
  show "getNgramUsage net w \<lparr>requests = 0, sleeps = []\<rparr>
          = Some (Inr (usage_of res), \<lparr>requests = Suc k, sleeps = replicate k 1\<rparr>)"
    by simp
next
  fix res
  assume "content res = None \<or> content res = Some (JArr []) \<or> (\<exists>e. try_occurrence res = Inl e)"
  then show "usage_of res = EmptyValue"
    using usage_of_not_json usage_of_empty_list usage_of_raise by blast
next
  fix e
  assume h: "net (ngram_args w) k = Inl e"
  then have "\<not> rate_limited (net (ngram_args w) k)"
    by (simp add: rate_limited_def)
  from getNgramUsage_fetch [of k net w, OF assms this] h
  show "getNgramUsage net w \<lparr>requests = 0, sleeps = []\<rparr>
          = Some (Inl e, \<lparr>requests = Suc k, sleeps = replicate k 1\<rparr>)"
    by simp
qed

theorem getNgramUsage_catches_after_response_witness:
  "getNgramUsage (\<lambda>a n. if n < 1 then Inr \<lparr>status_code = 429, content = None\<rparr>
                          else Inr \<lparr>status_code = 200, content = None\<rparr>)
       ''avyze'' \<lparr>requests = 0, sleeps = []\<rparr>
     = Some (Inr EmptyValue, \<lparr>requests = 2, sleeps = [1]\<rparr>) \<and>
   getNgramUsage (\<lambda>a n. if n < 1 then Inr \<lparr>status_code = 429, content = None\<rparr>
                          else Inl ConnectionError)
       ''avyze'' \<lparr>requests = 0, sleeps = []\<rparr>
     = Some (Inl ConnectionError, \<lparr>requests = 2, sleeps = [1]\<rparr>)"
proof -
  let ?n1 = "\<lambda>(a::args) (n::nat). if n < 1 then Inr \<lparr>status_code = 429, content = None\<rparr>
                          else (Inr \<lparr>status_code = 200, content = None\<rparr> :: outcome)"
  let ?n2 = "\<lambda>(a::args) (n::nat). if n < 1 then Inr \<lparr>status_code = 429, content = None\<rparr>
                          else (Inl ConnectionError :: outcome)"
  have h1: "\<forall>i<1. rate_limited (?n1 (ngram_args ''avyze'') i)"
    by (simp add: rate_limited_def tooManyReqsCode_def)
  have h2: "\<forall>i<1. rate_limited (?n2 (ngram_args ''avyze'') i)"
    by (simp add: rate_limited_def tooManyReqsCode_def)
  show ?thesis
    using getNgramUsage_catches_after_response [OF h1]
      getNgramUsage_catches_after_response [OF h2]
    by simp
qed

lemma shape_numbers: "shape (JArr (map JNum xs)) = Some [length xs]"
  by (cases xs) (simp_all add: list_all_iff)

lemma leaves_numbers: "leaves (JArr (map JNum xs)) = xs"
  by (induction xs) simp_all

lemma np_mean_numbers:
  "xs \<noteq> [] \<Longrightarrow> np_mean (JArr (map JNum xs)) = Inr (Fl (sum_list xs / real (length xs)))"
  by (simp add: np_mean_def shape_numbers leaves_numbers del: shape.simps leaves.simps)

lemma usage_of_timeseries:
  assumes "content res = Some (JArr (JObj kvs # rest))"
    and "map_of (rev kvs) ''timeseries'' = Some (JArr (map JNum xs))"
    and "xs \<noteq> []"
  shows "usage_of res = Occurrence (Fl (sum_list xs / real (length xs)))"
  using assms
  by (simp add: usage_of_def try_occurrence_def timeseries_of_def res_json_def raise_bind_def np_mean_numbers
      del: shape.simps leaves.simps)

text \<open>
  C7, as the claim states it, fails: the body \<open>[]\<close>, which the service sends for a
  word it has no data for, parses as JSON, and the lookup returns the empty value, not
  a mean.
\<close>

theorem getNgramUsage_no_result_counterexample:
  "getNgramUsage (\<lambda>a n. Inr \<lparr>status_code = 200, content = Some (JArr [])\<rparr>) ''nardwuar''
       \<lparr>requests = 0, sleeps = []\<rparr>
     = Some (Inr EmptyValue, \<lparr>requests = 1, sleeps = []\<rparr>)"
  by (simp add: getNgramUsage_def fetch_def tooManyReqsCode_def usage_of_empty_list)

text \<open>
  C7 (amended): when the first response that is not a rate limit parses to a JSON
  array whose first entry is an object with a member \<open>timeseries\<close> that is a non-empty
  array of numbers \<open>xs\<close>, \<open>getNgramUsage\<close> returns the arithmetic mean of \<open>xs\<close>.
\<close>

theorem getNgramUsage_mean_of_timeseries:
  assumes "\<forall>i<k. rate_limited (net (ngram_args w) i)"
    and "net (ngram_args w) k = Inr res"
    and "status_code res \<noteq> 429"
    and "content res = Some (JArr (JObj kvs # rest))"
    and "map_of (rev kvs) ''timeseries'' = Some (JArr (map JNum xs))"
    and "xs \<noteq> []"
  shows "getNgramUsage net w \<lparr>requests = 0, sleeps = []\<rparr>
           = Some (Inr (Occurrence (Fl (sum_list xs / real (length xs)))),
                   \<lparr>requests = Suc k, sleeps = replicate k 1\<rparr>)"
proof -
  have "\<not> rate_limited (net (ngram_args w) k)"
    using assms(2,3) by (simp add: rate_limited_def tooManyReqsCode_def)
  from getNgramUsage_fetch [of k net w, OF assms(1) this] assms(2)
    usage_of_timeseries [OF assms(4,5,6)]
  show ?thesis by simp
qed

theorem getNgramUsage_mean_of_timeseries_witness:
  "getNgramUsage
     (\<lambda>a n. Inr \<lparr>status_code = 200,
                  content = Some (JArr [JObj [(''ngram'', JStr (arg_content a)),
                                              (''parent'', JStr []),
                                              (''type'', JStr ''NGRAM''),
                                              (''timeseries'', JArr [JNum 1, JNum 2, JNum 6])]])\<rparr>)
     ''vaccine'' \<lparr>requests = 0, sleeps = []\<rparr>
   = Some (Inr (Occurrence (Fl 3)), \<lparr>requests = 1, sleeps = []\<rparr>)"
  using getNgramUsage_mean_of_timeseries
    [where net = "\<lambda>a n. Inr \<lparr>status_code = 200,
                  content = Some (JArr [JObj [(''ngram'', JStr (arg_content a)),
                                              (''parent'', JStr []),
                                              (''type'', JStr ''NGRAM''),
                                              (''timeseries'', JArr [JNum 1, JNum 2, JNum 6])]])\<rparr>"
      and k = 0 and w = "''vaccine''" and xs = "[1, 2, 6]"
      and kvs = "[(''ngram'', JStr ''vaccine''), (''parent'', JStr []),
                  (''type'', JStr ''NGRAM''),
                  (''timeseries'', JArr [JNum 1, JNum 2, JNum 6])]"
      and rest = "[]"]
  by (simp add: ngram_args_def)

subsection \<open>The cache run and the assembly\<close>

text \<open>The words \<open>array2List\<close> delivers hold no double quote and no white space.\<close>

lemma str_split_chars: "w \<in> set (str_split sep s) \<Longrightarrow> set w \<subseteq> set s"
proof (induction s arbitrary: w)
  case Nil
  then show ?case by simp
next
  case (Cons c cs)
  show ?case
  proof (cases "c = sep")
    case True
    with Cons show ?thesis by auto
  next
    case False
    obtain p ps where ps: "str_split sep cs = p # ps"
      using str_split_not_Nil [of sep cs] by (cases "str_split sep cs") auto
    with False Cons.prems have "w = c # p \<or> w \<in> set ps" by simp
    then show ?thesis
    proof
      assume "w = c # p"
      moreover have "set p \<subseteq> set cs" using Cons.IH [of p] ps by simp
      ultimately show ?thesis by auto
    next
      assume "w \<in> set ps"
      then have "set w \<subseteq> set cs" using Cons.IH [of w] ps by simp
      then show ?thesis by auto
    qed
  qed
qed

lemma array2List_no_quote_space: "w \<in> set (array2List arr) \<Longrightarrow> no_quote_space w"
proof -
  assume "w \<in> set (array2List arr)"
  then have "set w \<subseteq> set (re_sub (slice_1_m1 arr))"
    unfolding array2List_def by (rule str_split_chars)
  then show ?thesis
    by (auto simp: no_quote_space_def list_all_iff re_sub_def)
qed

lemma append_rows_eq:
  "append_rows lookup ws r =
     r\<lparr>calls := calls r @ ws, tsv := tsv r @ map (\<lambda>w. (w, lookup w)) ws\<rparr>"
  by (induction ws arbitrary: r) simp_all

lemma tsv_cache_step:
  "tsv (cache_step budget lookup wordlist answers fs) =
     create_if_absent fs @
     map (\<lambda>w. (w, lookup w))
       (within_budget budget (wordsToQuery wordlist answers (create_if_absent fs)))"
  by (simp add: cache_step_def append_rows_eq Let_def)

lemma calls_cache_step:
  "calls (cache_step budget lookup wordlist answers fs) =
     within_budget budget (wordsToQuery wordlist answers (create_if_absent fs))"
  by (simp add: cache_step_def append_rows_eq Let_def)

lemma wordsToQuery_fresh: "wordsToQuery wordlist answers [] = wordlist @ answers"
  by (simp add: wordsToQuery_def isQueried_def read_word_column_def)

lemma tsv_fresh_run:
  "tsv (cache_step None lookup wordlist answers None) =
     map (\<lambda>w. (w, lookup w)) (wordlist @ answers)"
  by (simp add: tsv_cache_step create_if_absent_def within_budget_def wordsToQuery_fresh)

lemma list_index_first:
  "w \<in> set xs \<Longrightarrow>
     \<exists>i. list_index xs w = Inr i \<and> i < length xs \<and> xs ! i = w \<and> (\<forall>j<i. xs ! j \<noteq> w)"
proof (induction xs)
  case Nil
  then show ?case by simp
next
  case (Cons x xs)
  show ?case
  proof (cases "x = w")
    case True
    then show ?thesis by simp
  next
    case False
    with Cons.prems have "w \<in> set xs" by simp
    from Cons.IH [OF this] obtain i where
      i: "list_index xs w = Inr i" "i < length xs" "xs ! i = w" "\<forall>j<i. xs ! j \<noteq> w"
      by blast
    have "\<forall>j<Suc i. (x # xs) ! j \<noteq> w"
      using False i(4) by (auto simp: nth_Cons split: nat.splits)
    with False i show ?thesis by simp
  qed
qed

lemma day_of_answer:
  "w \<in> set answers \<Longrightarrow>
     \<exists>i. day_of answers w = Inr (Some i) \<and> i < length answers \<and> answers ! i = w \<and>
         (\<forall>j<i. answers ! j \<noteq> w)"
  using list_index_first [of w answers] by (auto simp: day_of_def)

lemma day_of_other: "w \<notin> set answers \<Longrightarrow> day_of answers w = Inr None"
  by (simp add: day_of_def)

lemma day_of_returns: "day_of answers w = Inr (projr (day_of answers w))"
  using day_of_answer [of w answers] day_of_other [of w answers]
  by (cases "w \<in> set answers") auto

lemma day_of_cell_returns: "day_of_cell answers c = Inr (projr (day_of_cell answers c))"
  using day_of_returns by (cases c) (simp_all add: day_of_cell_def)

lemma apply_day_eq:
  "apply_day answers data =
     Inr (map (\<lambda>(c, x). \<lparr>word_cell = c, occurrence_cell = x,
                         day_cell = projr (day_of_cell answers c)\<rparr>) data)"
proof (induction data)
  case Nil
  show ?case by simp
next
  case (Cons p data)
  obtain c x where p: "p = (c, x)" by (cases p)
  obtain d where d: "day_of_cell answers c = Inr d"
    using day_of_cell_returns [of answers c] by blast
  show ?case
    using Cons.IH by (simp add: p d)
qed

lemma assemble_eq:
  "assemble answers rows =
     Inr (to_csv (sort_values_word
            (map (\<lambda>(w, u). \<lparr>word_cell = read_word w,
                             occurrence_cell = replace_nan (read_occurrence u),
                             day_cell = projr (day_of_cell answers (read_word w))\<rparr>) rows)))"
  by (simp add: assemble_def apply_day_eq read_csv_def case_prod_unfold comp_def)

lemma set_sort_values_word: "set (sort_values_word rows) = set rows"
  by (auto simp: sort_values_word_def)

lemma sort_values_word_no_nan:
  "\<forall>r \<in> set rows. word_cell r \<noteq> None \<Longrightarrow> sort_values_word rows = sort_key word_key rows"
  by (simp add: sort_values_word_def filter_id_conv filter_empty_conv)

lemma map_insort_key:
  "map f (insort_key (\<lambda>x. k (f x)) x xs) = insort_key k (f x) (map f xs)"
  by (induction xs) simp_all

lemma map_sort_key: "map f (sort_key (\<lambda>x. k (f x)) xs) = sort_key k (map f xs)"
  by (induction xs) (simp_all add: map_insort_key)

lemma final_output_csv_words:
  assumes "list_all csv_word (wordlist @ answers)"
  shows "final_output lookup wordlist answers =
     Inr (sort_key word
            (map (\<lambda>w. \<lparr>word = w, occurrence = replace_nan (read_occurrence (lookup w)),
                        day = projr (day_of answers w)\<rparr>) (wordlist @ answers)))"
proof -
  let ?ws = "wordlist @ answers"
  let ?fr = "\<lambda>w. \<lparr>word_cell = Some w,
                   occurrence_cell = replace_nan (read_occurrence (lookup w)),
                   day_cell = projr (day_of answers w)\<rparr>"
  let ?ex = "\<lambda>r. \<lparr>word = word_key r, occurrence = occurrence_cell r, day = day_cell r\<rparr>"
  have na: "\<forall>w \<in> set ?ws. read_word w = Some w"
    using assms by (auto simp: list_all_iff csv_word_def read_word_def)
  have fr: "map (\<lambda>(w, u). \<lparr>word_cell = read_word w,
                   occurrence_cell = replace_nan (read_occurrence u),
                   day_cell = projr (day_of_cell answers (read_word w))\<rparr>)
              (map (\<lambda>w. (w, lookup w)) ?ws) = map ?fr ?ws"
    using na by (simp add: day_of_cell_def del: map_append)
  have key: "word_key = (\<lambda>r. word (?ex r))"
    by (simp add: fun_eq_iff)
  have "final_output lookup wordlist answers = Inr (to_csv (sort_values_word (map ?fr ?ws)))"
    by (simp only: final_output_def tsv_fresh_run assemble_eq fr)
  also have "sort_values_word (map ?fr ?ws) = sort_key word_key (map ?fr ?ws)"
    by (rule sort_values_word_no_nan) auto
  also have "to_csv (sort_key word_key (map ?fr ?ws)) = sort_key word (map ?ex (map ?fr ?ws))"
    unfolding to_csv_def by (subst key) (rule map_sort_key)
  also have "map ?ex (map ?fr ?ws)
      = map (\<lambda>w. \<lparr>word = w, occurrence = replace_nan (read_occurrence (lookup w)),
                        day = projr (day_of answers w)\<rparr>) ?ws"
    by (simp add: word_key_def del: map_append)
  finally show ?thesis .
qed

text \<open>
  C1: with the word list \<open>["abcde"]\<close>, the answers \<open>["bcdef", "cdefg"]\<close> and a lookup
  that returns 0.1 for abcde, the empty value for bcdef and 0.2 for cdefg, the run on a
  fresh directory writes the three cache rows in the order of the words, and the
  assembled output is exactly the rows (abcde, 0.1, no day), (bcdef, 0.0, day 0),
  (cdefg, 0.2, day 1), in this order.
\<close>

theorem final_output_example:
  assumes "lookup ''abcde'' = Occurrence (Fl (1 / 10))"
    and "lookup ''bcdef'' = EmptyValue"
    and "lookup ''cdefg'' = Occurrence (Fl (2 / 10))"
  shows "tsv (cache_step None lookup [''abcde''] [''bcdef'', ''cdefg''] None) =
           [(''abcde'', Occurrence (Fl (1 / 10))), (''bcdef'', EmptyValue),
            (''cdefg'', Occurrence (Fl (2 / 10)))] \<and>
         final_output lookup [''abcde''] [''bcdef'', ''cdefg''] =
           Inr [\<lparr>word = ''abcde'', occurrence = Fl (1 / 10), day = None\<rparr>,
                \<lparr>word = ''bcdef'', occurrence = Fl 0, day = Some 0\<rparr>,
                \<lparr>word = ''cdefg'', occurrence = Fl (2 / 10), day = Some 1\<rparr>]"
  using assms
  by (simp add: final_output_def tsv_fresh_run assemble_def read_csv_def read_word_def
      is_na_def na_values_def day_of_cell_def day_of_def sort_values_word_def word_key_def
      to_csv_def)

theorem final_output_example_witness:
  "final_output
     (\<lambda>w. if w = ''abcde'' then Occurrence (Fl (1 / 10))
          else if w = ''bcdef'' then EmptyValue else Occurrence (Fl (2 / 10)))
     [''abcde''] [''bcdef'', ''cdefg''] =
   Inr [\<lparr>word = ''abcde'', occurrence = Fl (1 / 10), day = None\<rparr>,
        \<lparr>word = ''bcdef'', occurrence = Fl 0, day = Some 0\<rparr>,
        \<lparr>word = ''cdefg'', occurrence = Fl (2 / 10), day = Some 1\<rparr>]"
  using final_output_example
    [of "\<lambda>w. if w = ''abcde'' then Occurrence (Fl (1 / 10))
          else if w = ''bcdef'' then EmptyValue else Occurrence (Fl (2 / 10))"]
  by simp

lemma filter_eq_distinct:
  "distinct ws \<Longrightarrow> w \<in> set ws \<Longrightarrow> filter (\<lambda>x. x = w) ws = [w]"
proof (induction ws)
  case Nil
  then show ?case by simp
next
  case (Cons a ws)
  show ?case
  proof (cases "a = w")
    case True
    with Cons.prems have "w \<notin> set ws" by simp
    then have "filter (\<lambda>x. x = w) ws = []" by (auto simp: filter_empty_conv)
    with True show ?thesis by simp
  next
    case False
    with Cons show ?thesis by simp
  qed
qed

text \<open>
  C2, as the claim states it, fails for a word that pandas reads as a missing value:
  with the answer \<open>nan\<close> the output has no row of the word \<open>nan\<close>; its row is exported
  last, with an empty word.
\<close>

theorem final_output_na_word_counterexample:
  "final_output (\<lambda>w. EmptyValue) [''aahed''] [''nan'', ''cigar''] =
   Inr [\<lparr>word = ''aahed'', occurrence = Fl 0, day = None\<rparr>,
        \<lparr>word = ''cigar'', occurrence = Fl 0, day = Some 1\<rparr>,
        \<lparr>word = [], occurrence = Fl 0, day = None\<rparr>]"
  by (simp add: final_output_def tsv_fresh_run assemble_def read_csv_def read_word_def
      is_na_def na_values_def day_of_cell_def day_of_def sort_values_word_def word_key_def
      to_csv_def)

text \<open>
  C2 (amended): when the word list and the answers are each free of duplicates and
  share no word, and every word is free of double quotes and white space and is none
  of the NA strings of pandas, the notebook run on a fresh directory returns an
  output in which every word of the universe has exactly one row, and the words of
  the output are exactly the words of the word list and of the answers.
\<close>

theorem final_output_one_row_per_word:
  assumes "distinct wordlist" and "distinct answers" and "set wordlist \<inter> set answers = {}"
    and "list_all csv_word (wordlist @ answers)"
  shows "\<exists>out. final_output lookup wordlist answers = Inr out \<and>
           (\<forall>w \<in> set wordlist \<union> set answers. length (filter (\<lambda>r. word r = w) out) = 1) \<and>
           set (map word out) = set wordlist \<union> set answers"
proof -
  let ?g = "\<lambda>w. \<lparr>word = w, occurrence = replace_nan (read_occurrence (lookup w)),
                   day = projr (day_of answers w)\<rparr>"
  let ?ws = "wordlist @ answers"
  let ?out = "sort_key word (map ?g ?ws)"
  have d: "distinct ?ws" using assms by simp
  have out: "final_output lookup wordlist answers = Inr ?out"
    by (rule final_output_csv_words [OF assms(4)])
  have one: "length (filter (\<lambda>r. word r = w) ?out) = 1" if "w \<in> set ?ws" for w
  proof -
    have "filter (\<lambda>r. word r = w) ?out = sort_key word (filter (\<lambda>r. word r = w) (map ?g ?ws))"
      by (rule filter_sort)
    then have "length (filter (\<lambda>r. word r = w) ?out) = length (filter (\<lambda>r. word r = w) (map ?g ?ws))"
      by simp
    also have "\<dots> = length (filter (\<lambda>x. x = w) ?ws)"
      by (simp add: filter_map comp_def del: map_append filter_append)
    also have "\<dots> = 1"
      using filter_eq_distinct [OF d that] by simp
    finally show ?thesis .
  qed
  have words: "set (map word ?out) = set wordlist \<union> set answers"
    by (simp add: image_image image_Un)
  from out one words show ?thesis by auto
qed

theorem final_output_one_row_per_word_witness:
  "\<exists>out. final_output (\<lambda>w. EmptyValue) [''zebra'', ''aahed''] [''cigar''] = Inr out \<and>
         length (filter (\<lambda>r. word r = ''zebra'') out) = 1 \<and>
         length (filter (\<lambda>r. word r = ''aahed'') out) = 1 \<and>
         length (filter (\<lambda>r. word r = ''cigar'') out) = 1 \<and>
         set (map word out) = {''zebra'', ''aahed'', ''cigar''}"
proof -
  have h1: "distinct [''zebra'', ''aahed'']" by simp
  have h2: "distinct [''cigar'']" by simp
  have h3: "set [''zebra'', ''aahed''] \<inter> set [''cigar''] = {}" by simp
  have h4: "list_all csv_word ([''zebra'', ''aahed''] @ [''cigar''])"
    by (simp add: csv_word_def no_quote_space_def isspace_def is_na_def na_values_def)
  from final_output_one_row_per_word [OF h1 h2 h3 h4, of "\<lambda>w. EmptyValue"]
  show ?thesis by auto
qed

text \<open>
  C4, as the claim states it, fails for an answer that pandas reads as a missing
  value: the answer \<open>null\<close>, at position 0, is read back as \<open>NaN\<close>, which is not in
  \<open>answers\<close>, so its row is exported with an empty word and a null day.
\<close>

theorem final_output_na_answer_counterexample:
  "final_output (\<lambda>w. EmptyValue) [''zebra''] [''null'', ''rebut''] =
   Inr [\<lparr>word = ''rebut'', occurrence = Fl 0, day = Some 1\<rparr>,
        \<lparr>word = ''zebra'', occurrence = Fl 0, day = None\<rparr>,
        \<lparr>word = [], occurrence = Fl 0, day = None\<rparr>]"
  by (simp add: final_output_def tsv_fresh_run assemble_def read_csv_def read_word_def
      is_na_def na_values_def day_of_cell_def day_of_def sort_values_word_def word_key_def
      to_csv_def)

text \<open>
  C4 (amended): when every word is free of double quotes and white space and is none
  of the NA strings of pandas, then in the output of the notebook run on a fresh
  directory every word of the universe has a row; the day of a row whose word is an
  answer is the zero-based position of that word in the answers (the first one, as
  \<open>answers.index\<close> gives it), and the day of a row whose word is not an answer is null.
\<close>

theorem final_output_day:
  assumes "list_all csv_word (wordlist @ answers)"
  shows "\<exists>out. final_output lookup wordlist answers = Inr out \<and>
         (\<forall>w \<in> set wordlist \<union> set answers. \<exists>r \<in> set out. word r = w) \<and>
         (\<forall>r \<in> set out.
            (word r \<in> set answers \<longrightarrow>
               (\<exists>i. day r = Some i \<and> i < length answers \<and> answers ! i = word r \<and>
                    (\<forall>j<i. answers ! j \<noteq> word r))) \<and>
            (word r \<notin> set answers \<longrightarrow> day r = None))"
proof -
  let ?g = "\<lambda>w. \<lparr>word = w, occurrence = replace_nan (read_occurrence (lookup w)),
                   day = projr (day_of answers w)\<rparr>"
  let ?out = "sort_key word (map ?g (wordlist @ answers))"
  have out: "final_output lookup wordlist answers = Inr ?out"
    by (rule final_output_csv_words [OF assms])
  have cover: "\<forall>w \<in> set wordlist \<union> set answers. \<exists>r \<in> set ?out. word r = w"
  proof
    fix w
    assume "w \<in> set wordlist \<union> set answers"
    then have "?g w \<in> set ?out" by auto
    moreover have "word (?g w) = w" by simp
    ultimately show "\<exists>r \<in> set ?out. word r = w" by blast
  qed
  have days: "\<forall>r \<in> set ?out.
            (word r \<in> set answers \<longrightarrow>
               (\<exists>i. day r = Some i \<and> i < length answers \<and> answers ! i = word r \<and>
                    (\<forall>j<i. answers ! j \<noteq> word r))) \<and>
            (word r \<notin> set answers \<longrightarrow> day r = None)"
  proof
    fix r
    assume "r \<in> set ?out"
    then obtain w where r: "r = ?g w" by auto
    show "(word r \<in> set answers \<longrightarrow>
               (\<exists>i. day r = Some i \<and> i < length answers \<and> answers ! i = word r \<and>
                    (\<forall>j<i. answers ! j \<noteq> word r))) \<and>
            (word r \<notin> set answers \<longrightarrow> day r = None)"
    proof (cases "w \<in> set answers")
      case True
      from day_of_answer [OF this] obtain i where
        "day_of answers w = Inr (Some i)" "i < length answers" "answers ! i = w"
        "\<forall>j<i. answers ! j \<noteq> w" by blast
      with True show ?thesis by (simp add: r)
    next
      case False
      with day_of_other [OF this] show ?thesis by (simp add: r)
    qed
  qed
  from out cover days show ?thesis by blast
qed

theorem final_output_day_witness:
  "\<exists>out. final_output (\<lambda>w. EmptyValue) [''zebra'', ''aahed''] [''cigar'', ''rebut''] = Inr out \<and>
         (\<exists>r \<in> set out. word r = ''cigar'' \<and> day r = Some 0) \<and>
         (\<exists>r \<in> set out. word r = ''rebut'' \<and> day r = Some 1) \<and>
         (\<exists>r \<in> set out. word r = ''zebra'' \<and> day r = None)"
proof -
  let ?answers = "[''cigar'', ''rebut'']"
  have h: "list_all csv_word ([''zebra'', ''aahed''] @ ?answers)"
    by (simp add: csv_word_def no_quote_space_def isspace_def is_na_def na_values_def)
  from final_output_day [OF h, of "\<lambda>w. EmptyValue"]
  obtain out where
    out: "final_output (\<lambda>w. EmptyValue) [''zebra'', ''aahed''] ?answers = Inr out"
    and cover: "\<forall>w \<in> set [''zebra'', ''aahed''] \<union> set ?answers. \<exists>r \<in> set out. word r = w"
    and days: "\<forall>r \<in> set out.
            (word r \<in> set ?answers \<longrightarrow>
               (\<exists>i. day r = Some i \<and> i < length ?answers \<and> ?answers ! i = word r \<and>
                    (\<forall>j<i. ?answers ! j \<noteq> word r))) \<and>
            (word r \<notin> set ?answers \<longrightarrow> day r = None)"
    by blast
  from cover obtain r0 where r0: "r0 \<in> set out" "word r0 = ''cigar''" by auto
  from days r0 obtain i where i: "day r0 = Some i" "i < 2" "?answers ! i = ''cigar''" by auto
  from i(2) have "i = 0 \<or> i = 1" by auto
  with i(3) have "i = 0" by auto
  with i(1) r0 have c0: "\<exists>r \<in> set out. word r = ''cigar'' \<and> day r = Some 0" by auto
  from cover obtain r1 where r1: "r1 \<in> set out" "word r1 = ''rebut''" by auto
  from days r1 obtain j where j: "day r1 = Some j" "j < 2" "?answers ! j = ''rebut''" by auto
  from j(2) have "j = 0 \<or> j = 1" by auto
  with j(3) have "j = 1" by auto
  with j(1) r1 have c1: "\<exists>r \<in> set out. word r = ''rebut'' \<and> day r = Some 1" by auto
  from cover obtain r2 where r2: "r2 \<in> set out" "word r2 = ''zebra''" by auto
  with days have "day r2 = None" by auto
  with r2 have c2: "\<exists>r \<in> set out. word r = ''zebra'' \<and> day r = None" by auto
  from out c0 c1 c2 show ?thesis by blast
qed

lemma np_mean_nonneg:
  assumes "np_mean v = Inr (Fl x)" and "\<forall>y \<in> set (leaves v). 0 \<le> y"
  shows "0 \<le> x"
proof -
  from assms(1) have x: "x = sum_list (leaves v) / real (length (leaves v))"
    by (auto simp: np_mean_def Let_def split: option.splits if_splits)
  have "0 \<le> sum_list (leaves v)"
    using assms(2) by (simp add: sum_list_nonneg)
  then show ?thesis unfolding x by simp
qed

lemma usage_of_nonneg:
  assumes "\<forall>v. timeseries_of res = Inr v \<longrightarrow> (\<forall>y \<in> set (leaves v). 0 \<le> y)"
    and "usage_of res = Occurrence (Fl x)"
  shows "0 \<le> x"
proof -
  from assms(2) obtain v where v: "timeseries_of res = Inr v" "np_mean v = Inr (Fl x)"
    by (auto simp: usage_of_def try_occurrence_def raise_bind_def split: sum.splits)
  from assms(1) v(1) have "\<forall>y \<in> set (leaves v). 0 \<le> y" by blast
  with v(2) show ?thesis by (rule np_mean_nonneg)
qed

text \<open>
  C5: let \<open>reply w\<close> be the response the lookup of \<open>w\<close> reads, and let every number of
  every time series in these responses be non-negative. Then every row of the output
  of the notebook run on a fresh directory is the row of a word \<open>w\<close> of the universe
  (exported under its own name, or with an empty word when pandas reads \<open>w\<close> as a
  missing value), and its occurrence is a number (not \<open>NaN\<close>) and is non-negative: it
  is 0 when the cached value of \<open>w\<close> is missing (the empty value or \<open>nan\<close>), and it is
  the cached statistic otherwise.
\<close>

theorem final_output_occurrence:
  assumes "\<forall>w v. timeseries_of (reply w) = Inr v \<longrightarrow> (\<forall>y \<in> set (leaves v). 0 \<le> y)"
  shows "\<exists>out. final_output (\<lambda>w. usage_of (reply w)) wordlist answers = Inr out \<and>
           (\<forall>r \<in> set out. \<exists>w \<in> set wordlist \<union> set answers. \<exists>x.
              word r = (if is_na w then [] else w) \<and>
              occurrence r = Fl x \<and> 0 \<le> x \<and>
              (usage_of (reply w) = EmptyValue \<or>
               usage_of (reply w) = Occurrence NaN \<longrightarrow> x = 0) \<and>
              (\<forall>y. usage_of (reply w) = Occurrence (Fl y) \<longrightarrow> x = y))"
proof -
  let ?fr = "\<lambda>(w, u). \<lparr>word_cell = read_word w,
                             occurrence_cell = replace_nan (read_occurrence u),
                             day_cell = projr (day_of_cell answers (read_word w))\<rparr>"
  let ?ex = "\<lambda>r. \<lparr>word = word_key r, occurrence = occurrence_cell r, day = day_cell r\<rparr>"
  let ?rows = "map (\<lambda>w. (w, usage_of (reply w))) (wordlist @ answers)"
  let ?out = "to_csv (sort_values_word (map ?fr ?rows))"
  have out: "final_output (\<lambda>w. usage_of (reply w)) wordlist answers = Inr ?out"
    by (simp only: final_output_def tsv_fresh_run assemble_eq)
  have occ: "\<forall>r \<in> set ?out. \<exists>w \<in> set wordlist \<union> set answers. \<exists>x.
              word r = (if is_na w then [] else w) \<and>
              occurrence r = Fl x \<and> 0 \<le> x \<and>
              (usage_of (reply w) = EmptyValue \<or>
               usage_of (reply w) = Occurrence NaN \<longrightarrow> x = 0) \<and>
              (\<forall>y. usage_of (reply w) = Occurrence (Fl y) \<longrightarrow> x = y)"
  proof
    fix r
    assume "r \<in> set ?out"
    then have "r \<in> ?ex ` set (map ?fr ?rows)"
      by (simp only: to_csv_def set_map set_sort_values_word)
    then obtain f where f: "f \<in> set (map ?fr ?rows)" and rf: "r = ?ex f"
      by blast
    from f obtain p where p: "p \<in> set ?rows" and fp: "f = ?fr p"
      by (auto simp only: set_map)
    from p obtain w where w: "w \<in> set wordlist \<union> set answers"
      and pw: "p = (w, usage_of (reply w))"
      by auto
    have r: "r = ?ex (?fr (w, usage_of (reply w)))"
      by (simp only: rf fp pw)
    have wd: "word r = (if is_na w then [] else w)"
      by (simp add: r word_key_def read_word_def)
    have "\<exists>x. occurrence r = Fl x \<and> 0 \<le> x \<and>
              (usage_of (reply w) = EmptyValue \<or>
               usage_of (reply w) = Occurrence NaN \<longrightarrow> x = 0) \<and>
              (\<forall>y. usage_of (reply w) = Occurrence (Fl y) \<longrightarrow> x = y)"
    proof (cases "usage_of (reply w)")
      case EmptyValue
      then show ?thesis by (simp add: r)
    next
      case (Occurrence f)
      show ?thesis
      proof (cases f)
        case NaN
        with Occurrence show ?thesis by (simp add: r)
      next
        case (Fl y)
        with Occurrence have "usage_of (reply w) = Occurrence (Fl y)" by simp
        with assms have "0 \<le> y" using usage_of_nonneg [of "reply w" y] by blast
        with Occurrence Fl show ?thesis by (simp add: r)
      qed
    qed
    with w wd show "\<exists>w \<in> set wordlist \<union> set answers. \<exists>x.
              word r = (if is_na w then [] else w) \<and>
              occurrence r = Fl x \<and> 0 \<le> x \<and>
              (usage_of (reply w) = EmptyValue \<or>
               usage_of (reply w) = Occurrence NaN \<longrightarrow> x = 0) \<and>
              (\<forall>y. usage_of (reply w) = Occurrence (Fl y) \<longrightarrow> x = y)"
      by blast
  qed
  from out occ show ?thesis by blast
qed

theorem final_output_occurrence_witness:
  "final_output
     (\<lambda>w. usage_of (if w = ''cigar''
                     then \<lparr>status_code = 200,
                           content = Some (JArr [JObj [(''timeseries'', JArr [JNum 1, JNum 3])]])\<rparr>
                     else \<lparr>status_code = 200, content = Some (JArr [])\<rparr>))
     [''zebra''] [''cigar'']
   = Inr [\<lparr>word = ''cigar'', occurrence = Fl 2, day = Some 0\<rparr>,
          \<lparr>word = ''zebra'', occurrence = Fl 0, day = None\<rparr>]"
proof -
  let ?reply = "\<lambda>w. if w = ''cigar''
                     then \<lparr>status_code = 200,
                           content = Some (JArr [JObj [(''timeseries'', JArr [JNum 1, JNum 3])]])\<rparr>
                     else \<lparr>status_code = 200, content = Some (JArr [])\<rparr>"
  have hyp: "\<forall>w v. timeseries_of (?reply w) = Inr v \<longrightarrow> (\<forall>y \<in> set (leaves v). 0 \<le> y)"
    by (auto simp: timeseries_of_def res_json_def raise_bind_def)
  from final_output_occurrence [of ?reply "[''zebra'']" "[''cigar'']", OF hyp]
  obtain out where
    out: "final_output (\<lambda>w. usage_of (?reply w)) [''zebra''] [''cigar''] = Inr out"
    by blast
  have c: "usage_of (?reply ''cigar'') = Occurrence (Fl 2)"
    by (simp add: usage_of_def try_occurrence_def timeseries_of_def res_json_def
        raise_bind_def np_mean_def)
  have z: "usage_of (?reply ''zebra'') = EmptyValue"
    by (simp add: usage_of_def try_occurrence_def timeseries_of_def res_json_def
        raise_bind_def)
  have "out = [\<lparr>word = ''cigar'', occurrence = Fl 2, day = Some 0\<rparr>,
               \<lparr>word = ''zebra'', occurrence = Fl 0, day = None\<rparr>]"
    using out c z
    by (simp add: final_output_def tsv_fresh_run assemble_def read_csv_def read_word_def
      is_na_def na_values_def day_of_cell_def day_of_def sort_values_word_def word_key_def
      to_csv_def)
  with out show ?thesis by simp
qed










lemmas plain_eval = plain_word_def csv_word_def no_quote_space_def isspace_def is_na_def
      na_values_def numeric_like_def float_syntax_def isdigit_def isblank_def inf_token_def
      bool_like_def ascii_lower_def


text \<open>
  A recorded word is also looked up again when pandas does not read it back as a
  string: \<open>null\<close> is read as \<open>NaN\<close>, and a word column that holds only \<open>false\<close> is
  read as a column of booleans.
\<close>

lemma resume_na_word_refetched:
  "partial_runs [1] (\<lambda>w. EmptyValue) [''null'', ''aahed''] [''cigar''] None
     = Some [(''null'', EmptyValue)] \<and>
   calls (cache_step None (\<lambda>w. EmptyValue) [''null'', ''aahed''] [''cigar'']
            (Some [(''null'', EmptyValue)]))
     = [''null'', ''aahed'', ''cigar'']"
  by (simp add: tsv_cache_step calls_cache_step create_if_absent_def within_budget_def
      wordsToQuery_def isQueried_def read_word_column_def is_na_def na_values_def)

lemma resume_bool_word_refetched:
  "calls (cache_step None (\<lambda>w. EmptyValue) [''false'', ''aahed''] [''cigar'']
            (Some [(''false'', EmptyValue)]))
     = [''false'', ''aahed'', ''cigar'']"
  by (simp add: calls_cache_step create_if_absent_def within_budget_def
      wordsToQuery_def isQueried_def read_word_column_def plain_eval)










end
